theory Spec2Isabelle
  imports Complex_Main "HOL-Library.Sublist"
begin

section \<open>Data model\<close>

text \<open>
  The component under study is \<^verbatim>\<open>src/components/InventoryApp.tsx\<close> (the version with
  bar codes). A TypeScript \<^verbatim>\<open>number\<close> is modelled by a rational: every number the program
  handles is finite (JSON text holds no other, and \<^verbatim>\<open>Date.now()\<close> is a whole number of
  milliseconds).
\<close>

type_synonym number = rat

text \<open>\<^verbatim>\<open>interface Item { id: number; name: string; quantity: number; barcode?: string }\<close>\<close>

record item =
  item_id :: number
  name :: string
  quantity :: number
  barcode :: "string option"

section \<open>The item store\<close>

text \<open>
  The store is the \<^verbatim>\<open>items\<close> slot of local storage, written only by this program and
  therefore either absent or the JSON text of an item array; \<open>slot\<close> is its parsed content.
  \<open>clock\<close> is what \<^verbatim>\<open>Date.now()\<close> returns at the moment, in milliseconds; it is a wall
  clock, which the environment may set to any value, forward or back.

  Every store operation first awaits \<^verbatim>\<open>setTimeout(resolve, 1000)\<close>. The functions below are
  what an operation does once its timer has fired: the read, the time stamp and the write
  follow each other with no other task of the page in between. The wait itself, during
  which the page goes on and other operations may be started or completed, is part of
  the page's model further down.
\<close>

record world =
  slot :: "item list option"
  clock :: nat

text \<open>\<^verbatim>\<open>JSON.parse(localStorage.getItem('items') || '[]')\<close>\<close>

definition stored :: "'a world_scheme \<Rightarrow> item list" where
  "stored w = (case slot w of None \<Rightarrow> [] | Some xs \<Rightarrow> xs)"

definition api_getItems :: "'a world_scheme \<Rightarrow> item list" where
  "api_getItems w = stored w"

definition api_addItem ::
  "string \<Rightarrow> number \<Rightarrow> string option \<Rightarrow> 'a world_scheme \<Rightarrow> item \<times> 'a world_scheme" where
  "api_addItem nm qty bc w =
     (let xs = api_getItems w;
          newItem = \<lparr>item_id = of_nat (clock w), name = nm, quantity = qty, barcode = bc\<rparr>
      in (newItem, w\<lparr>slot := Some (xs @ [newItem])\<rparr>))"

definition api_updateItem :: "item \<Rightarrow> 'a world_scheme \<Rightarrow> item \<times> 'a world_scheme" where
  "api_updateItem it w =
     (let xs = api_getItems w;
          updatedItems = map (\<lambda>i. if item_id i = item_id it then it else i) xs
      in (it, w\<lparr>slot := Some updatedItems\<rparr>))"

definition api_deleteItem :: "number \<Rightarrow> 'a world_scheme \<Rightarrow> 'a world_scheme" where
  "api_deleteItem d w =
     (let xs = api_getItems w;
          updatedItems = filter (\<lambda>i. item_id i \<noteq> d) xs
      in w\<lparr>slot := Some updatedItems\<rparr>)"

section \<open>Component state\<close>

text \<open>
  The severities and the messages of the notification state. The messages are, in order:
  the empty text, \<^verbatim>\<open>Item actualizado\<close>, \<^verbatim>\<open>Item creado\<close>, \<^verbatim>\<open>Item eliminado\<close>,
  \<^verbatim>\<open>Error al eliminar el item\<close> and the scanner's \<^verbatim>\<open>Error al iniciar el escaner. ...\<close>.
\<close>

datatype severity = Sev_success | Sev_error | Sev_info | Sev_warning

datatype message =
    Msg_empty
  | Item_actualizado
  | Item_creado
  | Item_eliminado
  | Error_al_eliminar
  | Error_al_iniciar_el_escaner

record snackbar_state =
  opened :: bool
  message :: message
  severity :: severity

text \<open>
  A store operation that a handler has started and whose timer has not fired yet, with
  the arguments the handler gave it: \<^verbatim>\<open>api.addItem\<close>, \<^verbatim>\<open>api.updateItem\<close>, \<^verbatim>\<open>api.deleteItem\<close>,
  and the \<^verbatim>\<open>api.getItems\<close> of \<^verbatim>\<open>loadInventory\<close>.
\<close>

datatype task =
    Adding string number "string option"
  | Updating item
  | Deleting number
  | Loading

text \<open>
  The \<^verbatim>\<open>useState\<close> cells of \<^verbatim>\<open>InventoryApp\<close>, on top of the world it runs in. Three more
  fields record what the environment holds on the program's behalf. \<open>pending\<close> is the
  queue of started store operations; all timers have the same delay, so they fire in the
  order in which they were set. \<open>decoding\<close> lists the decode sessions started by
  \<^verbatim>\<open>decodeFromVideoDevice\<close> and not stopped; each holds the camera stream and the callback
  it was given. That callback is a closure of the render in which the scanner was opened,
  so the \<^verbatim>\<open>items\<close> it reads are the list of that render: the session is recorded as that
  list. \<open>unhandled\<close> counts rejected promises that nothing awaits or catches.

  \<^verbatim>\<open>filteredItems\<close> is recomputed by an effect from \<open>items\<close> and \<open>search\<close> and is therefore
  a function of the state, below. The handlers bound in the markup are those of the
  current render and read the current state.
\<close>

record app_state = world +
  items :: "item list"
  loading :: bool
  error :: "string option"
  editItem :: "item option"
  isDialogOpen :: bool
  snackbar :: snackbar_state
  search :: string
  isScannerOpen :: bool
  pending :: "task list"
  decoding :: "item list list"
  unhandled :: nat

text \<open>
  The two early returns of the render function: while \<open>loading\<close> or with a non-empty
  \<open>error\<close> only a paragraph is shown, and no control of the page exists.
\<close>

definition rendered :: "app_state \<Rightarrow> bool" where
  "rendered st \<longleftrightarrow>
     \<not> loading st \<and> (case error st of None \<Rightarrow> True | Some e \<Rightarrow> e = [])"

text \<open>
  \<^verbatim>\<open>loadInventory\<close> up to its \<^verbatim>\<open>await\<close>: \<open>loading\<close> is set and the read is started. What
  follows the \<^verbatim>\<open>await\<close> is \<open>resume Loading\<close> below. Reading a slot that the program wrote
  itself cannot throw, so the \<^verbatim>\<open>catch\<close> branch (which sets \<open>error\<close>) is never taken.
\<close>

definition loadInventory :: "app_state \<Rightarrow> app_state" where
  "loadInventory st = st\<lparr>loading := True, pending := pending st @ [Loading]\<rparr>"

text \<open>
  The state of a freshly loaded page, once the mount effect has called \<^verbatim>\<open>loadInventory\<close>.
\<close>

definition boot :: "item list option \<Rightarrow> nat \<Rightarrow> app_state" where
  "boot s t =
     \<lparr>slot = s, clock = t, items = [], loading = True, error = None, editItem = None,
      isDialogOpen = False,
      snackbar = \<lparr>opened = False, message = Msg_empty, severity = Sev_success\<rparr>,
      search = [], isScannerOpen = False, pending = [Loading], decoding = [],
      unhandled = 0\<rparr>"

subsection \<open>Filtering\<close>

text \<open>
  \<^verbatim>\<open>String.prototype.includes\<close>: some position of the text starts an occurrence of the
  searched text.
\<close>

fun str_includes :: "string \<Rightarrow> string \<Rightarrow> bool" where
  "str_includes [] q = (q = [])"
| "str_includes (c # cs) q = (prefix q (c # cs) \<or> str_includes cs q)"

text \<open>
  \<^verbatim>\<open>filterInventory\<close>. \<^verbatim>\<open>toLowerCase\<close> is a parameter: the built-in follows the Unicode case
  tables, which are no part of the program. In JavaScript \<^verbatim>\<open>item.barcode && ...\<close> is falsy
  for a missing bar code and for the empty one.
\<close>

definition filterInventory :: "(string \<Rightarrow> string) \<Rightarrow> item list \<Rightarrow> string \<Rightarrow> item list" where
  "filterInventory toLowerCase xs q =
     filter (\<lambda>i. str_includes (toLowerCase (name i)) (toLowerCase q)
                \<or> (case barcode i of None \<Rightarrow> False | Some b \<Rightarrow> b \<noteq> [] \<and> str_includes b q)) xs"

definition filteredItems :: "(string \<Rightarrow> string) \<Rightarrow> app_state \<Rightarrow> item list" where
  "filteredItems toLowerCase st = filterInventory toLowerCase (items st) (search st)"

text \<open>The built-in on ASCII text, for evaluating examples.\<close>

definition lower_char :: "char \<Rightarrow> char" where
  "lower_char c =
     (case map_of (zip ''ABCDEFGHIJKLMNOPQRSTUVWXYZ'' ''abcdefghijklmnopqrstuvwxyz'') c of
        None \<Rightarrow> c | Some d \<Rightarrow> d)"

definition ascii_lower :: "string \<Rightarrow> string" where
  "ascii_lower s = map lower_char s"

text \<open>
  The specification's wording of the filter: an item matches when its name contains the
  query once both are put in lower case, or when it has a bar code that contains the
  query as it is written.
\<close>

definition matches_query :: "(string \<Rightarrow> string) \<Rightarrow> string \<Rightarrow> item \<Rightarrow> bool" where
  "matches_query toLowerCase q i \<longleftrightarrow>
     sublist (toLowerCase q) (toLowerCase (name i))
     \<or> (\<exists>b. barcode i = Some b \<and> sublist q b)"

subsection \<open>Bar-code resolution and the dialog\<close>

text \<open>
  \<^verbatim>\<open>handleBarcodeDetected\<close>. Its first argument is the \<^verbatim>\<open>items\<close> of the render that created
  the handler.
\<close>

definition handleBarcodeDetected :: "item list \<Rightarrow> string \<Rightarrow> app_state \<Rightarrow> app_state" where
  "handleBarcodeDetected xs code st =
     (case find (\<lambda>i. barcode i = Some code) xs of
        Some it \<Rightarrow> st\<lparr>editItem := Some it, isDialogOpen := True\<rparr>
      | None \<Rightarrow>
          st\<lparr>editItem := Some \<lparr>item_id = 0, name = [], quantity = 1, barcode = Some code\<rparr>,
             isDialogOpen := True\<rparr>)"

text \<open>
  The dialog's heading and button, \<^verbatim>\<open>editItem && editItem.id ? 'Editar ...' : 'Agregar ...'\<close>,
  and the same test in \<^verbatim>\<open>handleSubmit\<close>: the number 0 is falsy.
\<close>

datatype dialog_mode = Editar | Agregar

definition dialog_mode :: "app_state \<Rightarrow> dialog_mode" where
  "dialog_mode st =
     (case editItem st of
        None \<Rightarrow> Agregar
      | Some e \<Rightarrow> if item_id e \<noteq> 0 then Editar else Agregar)"

text \<open>
  \<^verbatim>\<open>handleSubmit\<close> up to its \<^verbatim>\<open>await\<close>, given the three fields of the form: \<open>qty\<close> is
  \<^verbatim>\<open>Number(formData.get('quantity'))\<close>. The test and the choice between update and create
  are made at once, with the edit target of the moment; the chosen store operation is
  started with its arguments. The dialog stays as it is until the operation completes.
\<close>

definition handleSubmit :: "string \<Rightarrow> number \<Rightarrow> string \<Rightarrow> app_state \<Rightarrow> app_state" where
  "handleSubmit nm qty bc st =
     (if nm \<noteq> [] \<and> 0 < qty then
        (case editItem st of
           Some e \<Rightarrow>
             if item_id e \<noteq> 0 then
               st\<lparr>pending := pending st
                      @ [Updating (e\<lparr>name := nm, quantity := qty, barcode := Some bc\<rparr>)]\<rparr>
             else st\<lparr>pending := pending st @ [Adding nm qty (Some bc)]\<rparr>
         | None \<Rightarrow> st\<lparr>pending := pending st @ [Adding nm qty (Some bc)]\<rparr>)
      else st)"

text \<open>The component's \<^verbatim>\<open>deleteItem\<close> up to its \<^verbatim>\<open>await\<close>.\<close>

definition deleteItem :: "number \<Rightarrow> app_state \<Rightarrow> app_state" where
  "deleteItem d st = st\<lparr>pending := pending st @ [Deleting d]\<rparr>"

text \<open>
  What runs when the timer of a started operation has fired: the store operation itself
  and the rest of the handler that awaited it. After a create or an update,
  \<^verbatim>\<open>handleSubmit\<close> sets the notification, calls \<^verbatim>\<open>loadInventory()\<close> without awaiting it and
  closes the dialog; after a delete, \<^verbatim>\<open>deleteItem\<close> calls \<^verbatim>\<open>loadInventory()\<close> and sets the
  notification (the store write cannot throw in this model); after the read,
  \<^verbatim>\<open>loadInventory\<close> sets the list and clears \<open>loading\<close>.
\<close>

fun resume :: "task \<Rightarrow> app_state \<Rightarrow> app_state" where
  "resume (Adding nm qty bc) st =
     (loadInventory
        ((snd (api_addItem nm qty bc st))
           \<lparr>snackbar := \<lparr>opened = True, message = Item_creado, severity = Sev_success\<rparr>\<rparr>))
       \<lparr>isDialogOpen := False\<rparr>"
| "resume (Updating it) st =
     (loadInventory
        ((snd (api_updateItem it st))
           \<lparr>snackbar := \<lparr>opened = True, message = Item_actualizado, severity = Sev_success\<rparr>\<rparr>))
       \<lparr>isDialogOpen := False\<rparr>"
| "resume (Deleting d) st =
     (loadInventory (api_deleteItem d st))
       \<lparr>snackbar := \<lparr>opened = True, message = Item_eliminado, severity = Sev_success\<rparr>\<rparr>"
| "resume Loading st = st\<lparr>items := api_getItems st, loading := False\<rparr>"

text \<open>The oldest timer fires, if there is one.\<close>

definition timer :: "app_state \<Rightarrow> app_state" where
  "timer st = (case pending st of [] \<Rightarrow> st | t # ts \<Rightarrow> resume t (st\<lparr>pending := ts\<rparr>))"



subsection \<open>The camera scanner\<close>

text \<open>
  The camera library is outside the program; what it does is an input. \<open>devs\<close> is the
  outcome of \<^verbatim>\<open>listVideoInputDevices()\<close>: \<open>None\<close> when the promise rejects, else the device
  ids. \<open>granted\<close> tells whether the promise returned by \<^verbatim>\<open>decodeFromVideoDevice\<close> is
  fulfilled (the stream is open and frames are being decoded, with the callback of this
  render) or rejected (the user or the system denied the camera).

  \<^verbatim>\<open>initScanner\<close> awaits the device list inside \<^verbatim>\<open>try\<close>; reading \<^verbatim>\<open>deviceId\<close> of the first
  element of an empty list throws a \<^verbatim>\<open>TypeError\<close>; both land in \<^verbatim>\<open>catch\<close>. The call of
  \<^verbatim>\<open>decodeFromVideoDevice\<close> is not awaited and its promise is dropped, so its rejection
  reaches no handler. The video element exists when the overlay is shown.
\<close>

definition initScanner :: "string list option \<Rightarrow> bool \<Rightarrow> app_state \<Rightarrow> app_state" where
  "initScanner devs granted st =
     (if isScannerOpen st \<and> rendered st then
        (case devs of
           None \<Rightarrow>
             st\<lparr>snackbar :=
                  \<lparr>opened = True, message = Error_al_iniciar_el_escaner, severity = Sev_error\<rparr>\<rparr>
         | Some [] \<Rightarrow>
             st\<lparr>snackbar :=
                  \<lparr>opened = True, message = Error_al_iniciar_el_escaner, severity = Sev_error\<rparr>\<rparr>
         | Some (selectedDeviceId # _) \<Rightarrow>
             if granted then st\<lparr>decoding := decoding st @ [items st]\<rparr>
             else st\<lparr>unhandled := Suc (unhandled st)\<rparr>)
      else st)"

text \<open>
  The button \<^verbatim>\<open>Escanear codigo\<close> sets \<open>isScannerOpen\<close>; the effect on \<open>isScannerOpen\<close> runs
  when the value has changed and calls \<^verbatim>\<open>initScanner\<close> when it is true. The clean-up of that
  effect is empty.
\<close>

definition onEscanear :: "string list option \<Rightarrow> bool \<Rightarrow> app_state \<Rightarrow> app_state" where
  "onEscanear devs granted st =
     (if isScannerOpen st then st else initScanner devs granted (st\<lparr>isScannerOpen := True\<rparr>))"

text \<open>The button \<^verbatim>\<open>Cerrar\<close> of the overlay.\<close>

definition onCerrar :: "app_state \<Rightarrow> app_state" where
  "onCerrar st = st\<lparr>isScannerOpen := False\<rparr>"

text \<open>
  The callback given to \<^verbatim>\<open>decodeFromVideoDevice\<close>, called by a running decode session for
  every frame: with the text of a recognised code, or with none. \<open>xs\<close> is the list the
  session's callback closes over.
\<close>

definition decodeCallback :: "item list \<Rightarrow> string option \<Rightarrow> app_state \<Rightarrow> app_state" where
  "decodeCallback xs result st =
     (case result of
        Some code \<Rightarrow> (handleBarcodeDetected xs code st)\<lparr>isScannerOpen := False\<rparr>
      | None \<Rightarrow> st)"

subsection \<open>The other controls\<close>

text \<open>
  The hidden input for a keyboard-wedge scanner: \<^verbatim>\<open>onKeyDown\<close> gets the key and the
  input's text, and returns the text it leaves in the input.
\<close>

definition wedgeKeyDown :: "string \<Rightarrow> string \<Rightarrow> app_state \<Rightarrow> string \<times> app_state" where
  "wedgeKeyDown key v st =
     (if key = ''Enter'' then ([], handleBarcodeDetected (items st) v st) else (v, st))"

definition onAgregar :: "app_state \<Rightarrow> app_state" where
  "onAgregar st = st\<lparr>isDialogOpen := True, editItem := None\<rparr>"

definition onEditar :: "item \<Rightarrow> app_state \<Rightarrow> app_state" where
  "onEditar it st = st\<lparr>editItem := Some it, isDialogOpen := True\<rparr>"

definition onCancelar :: "app_state \<Rightarrow> app_state" where
  "onCancelar st = st\<lparr>isDialogOpen := False\<rparr>"

section \<open>Runs\<close>




text \<open>
  What can happen to the page. A control can be used only while it is shown; the rows
  (with their \<^verbatim>\<open>Editar\<close> and \<^verbatim>\<open>Eliminar\<close> buttons) are items of the loaded list; a decode
  callback is called by a running session, given by its position. The browser lets a form
  be submitted only when it is valid: the name is required, and the quantity is a
  required number input with \<^verbatim>\<open>min="1"\<close> and the default step, so \<open>Submit\<close> carries a name
  that is not empty and a whole quantity of at least 1. \<open>Timer\<close> is the oldest timer
  firing; since a handler only starts its store operation and the dialog stays open
  until the operation completes, operations overlap. \<open>Clock\<close> sets the wall clock, to a
  time after the epoch. \<open>Reload\<close> loads the page anew: the component state starts over,
  the timers and sessions of the old page end, the store stays.
\<close>

datatype event =
    Timer
  | Reload
  | Clock nat
  | Set_search string
  | Click_agregar
  | Click_editar item
  | Click_eliminar number
  | Click_cancelar
  | Submit string int string
  | Click_escanear "string list option" bool
  | Click_cerrar
  | Decoded nat "string option"
  | Wedge_key string string

fun step :: "event \<Rightarrow> app_state \<Rightarrow> app_state option" where
  "step Timer st = (if pending st \<noteq> [] then Some (timer st) else None)"
| "step Reload st = Some (boot (slot st) (clock st))"
| "step (Clock t) st = (if 0 < t then Some (st\<lparr>clock := t\<rparr>) else None)"
| "step (Set_search q) st = (if rendered st then Some (st\<lparr>search := q\<rparr>) else None)"
| "step Click_agregar st = (if rendered st then Some (onAgregar st) else None)"
| "step (Click_editar it) st =
     (if rendered st \<and> it \<in> set (items st) then Some (onEditar it st) else None)"
| "step (Click_eliminar d) st =
     (if rendered st \<and> d \<in> item_id ` set (items st) then Some (deleteItem d st) else None)"
| "step Click_cancelar st =
     (if rendered st \<and> isDialogOpen st then Some (onCancelar st) else None)"
| "step (Submit nm q bc) st =
     (if rendered st \<and> isDialogOpen st \<and> nm \<noteq> [] \<and> 1 \<le> q
      then Some (handleSubmit nm (of_int q) bc st) else None)"
| "step (Click_escanear devs granted) st =
     (if rendered st then Some (onEscanear devs granted st) else None)"
| "step Click_cerrar st =
     (if rendered st \<and> isScannerOpen st then Some (onCerrar st) else None)"
| "step (Decoded k result) st =
     (if k < length (decoding st) then Some (decodeCallback (decoding st ! k) result st)
      else None)"
| "step (Wedge_key key v) st =
     (if rendered st then Some (snd (wedgeKeyDown key v st)) else None)"

fun run :: "event list \<Rightarrow> app_state \<Rightarrow> app_state option" where
  "run [] st = Some st"
| "run (e # es) st = (case step e st of None \<Rightarrow> None | Some st' \<Rightarrow> run es st')"

text \<open>
  The states the program can be in: those a run of events reaches from a freshly loaded
  page whose store has never been written, at a time after the epoch.
\<close>

definition reachable_by :: "event list \<Rightarrow> nat \<Rightarrow> app_state \<Rightarrow> bool" where
  "reachable_by es t0 st \<longleftrightarrow> 0 < t0 \<and> run es (boot None t0) = Some st"

section \<open>Invariants\<close>

text \<open>
  The clock reads a time after the epoch, and no item in the store, in the loaded list or
  in a list that a decode session holds carries the id 0.
\<close>

definition app_ok :: "app_state \<Rightarrow> bool" where
  "app_ok st \<longleftrightarrow>
     0 < clock st
     \<and> (\<forall>i\<in>set (stored st). item_id i \<noteq> 0)
     \<and> (\<forall>i\<in>set (items st). item_id i \<noteq> 0)
     \<and> (\<forall>xs\<in>set (decoding st). \<forall>i\<in>set xs. item_id i \<noteq> 0)"

text \<open>Once the page has loaded, the list it shows is the list in the store.\<close>

definition synced :: "app_state \<Rightarrow> bool" where
  "synced st \<longleftrightarrow> loading st \<or> items st = stored st"

section \<open>Notions of the specification\<close>

text \<open>
  The first item of a list that carries a given bar code: it carries the code, and no
  item before it does.
\<close>

definition first_with_barcode :: "string \<Rightarrow> item list \<Rightarrow> item \<Rightarrow> bool" where
  "first_with_barcode code xs it \<longleftrightarrow>
     (\<exists>pre post. xs = pre @ it # post \<and> barcode it = Some code
        \<and> (\<forall>j\<in>set pre. barcode j \<noteq> Some code))"

section \<open>Example runs\<close>

text \<open>
  A page is loaded at time 1000 on a store that was never written, and one item is added
  through the dialog: the timer of the create fires at time 2000, that of the reload at
  time 3000. The state this leaves.
\<close>

definition tape :: item where
  "tape = \<lparr>item_id = 2000, name = ''tape'', quantity = 7, barcode = Some ''99999''\<rparr>"

definition tape_events :: "event list" where
  "tape_events =
     [Timer, Click_agregar, Submit ''tape'' 7 ''99999'', Clock 2000, Timer, Clock 3000, Timer]"

definition tape_state :: app_state where
  "tape_state =
     \<lparr>slot = Some [tape], clock = 3000, items = [tape], loading = False, error = None,
      editItem = None, isDialogOpen = False,
      snackbar = \<lparr>opened = True, message = Item_creado, severity = Sev_success\<rparr>,
      search = [], isScannerOpen = False, pending = [], decoding = [], unhandled = 0\<rparr>"

section \<open>Properties of the store\<close>

lemma stored_clock [simp]: "stored (w\<lparr>clock := c\<rparr>) = stored w"
  by (simp add: stored_def)

lemma stored_slot [simp]: "stored (w\<lparr>slot := Some xs\<rparr>) = xs"
  by (simp add: stored_def)

lemma stored_updateItem:
  "stored (snd (api_updateItem it w)) =
     map (\<lambda>i. if item_id i = item_id it then it else i) (stored w)"
  by (simp add: api_updateItem_def api_getItems_def Let_def)

lemma stored_deleteItem:
  "stored (api_deleteItem d w) = filter (\<lambda>i. item_id i \<noteq> d) (stored w)"
  by (simp add: api_deleteItem_def api_getItems_def Let_def)

lemma stored_addItem:
  "stored (snd (api_addItem nm qty bc w)) =
     stored w @ [\<lparr>item_id = of_nat (clock w), name = nm, quantity = qty, barcode = bc\<rparr>]"
  by (simp add: api_addItem_def api_getItems_def Let_def)

lemma clock_api [simp]:
  "clock (snd (api_addItem nm qty bc w)) = clock w"
  "clock (snd (api_updateItem it w)) = clock w"
  "clock (api_deleteItem d w) = clock w"
  by (simp_all add: api_addItem_def api_updateItem_def api_deleteItem_def Let_def)


lemma map_replace_absent:
  "item_id it \<notin> item_id ` set xs \<Longrightarrow>
     map (\<lambda>i. if item_id i = item_id it then it else i) xs = xs"
  by (induction xs) auto

section \<open>Update and delete\<close>

text \<open>
  Claim C6. An update whose id no stored item carries passes through: the stored list
  reads back as it was (nothing added, nothing changed) and the call returns the item it
  was given.
\<close>

theorem updateItem_absent_id_passes_through:
  assumes "item_id it \<notin> item_id ` set (stored w)"
  shows "stored (snd (api_updateItem it w)) = stored w
       \<and> fst (api_updateItem it w) = it"
proof -
  have "map (\<lambda>i. if item_id i = item_id it then it else i) (stored w) = stored w"
    using assms by (rule map_replace_absent)
  moreover have "fst (api_updateItem it w) = it"
    by (simp add: api_updateItem_def Let_def)
  ultimately show ?thesis
    by (simp add: stored_updateItem)
qed

theorem updateItem_absent_id_witness:
  "stored (snd (api_updateItem
       \<lparr>item_id = 7, name = ''nail'', quantity = 2, barcode = None\<rparr>
       \<lparr>slot = Some [\<lparr>item_id = 5, name = ''bolt'', quantity = 3, barcode = Some ''A1''\<rparr>],
        clock = 9\<rparr>))
     = [\<lparr>item_id = 5, name = ''bolt'', quantity = 3, barcode = Some ''A1''\<rparr>]
   \<and> fst (api_updateItem
       \<lparr>item_id = 7, name = ''nail'', quantity = 2, barcode = None\<rparr>
       \<lparr>slot = Some [\<lparr>item_id = 5, name = ''bolt'', quantity = 3, barcode = Some ''A1''\<rparr>],
        clock = 9\<rparr>)
     = \<lparr>item_id = 7, name = ''nail'', quantity = 2, barcode = None\<rparr>"
  using updateItem_absent_id_passes_through
    [of "\<lparr>item_id = 7, name = ''nail'', quantity = 2, barcode = None\<rparr>"
        "\<lparr>slot = Some [\<lparr>item_id = 5, name = ''bolt'', quantity = 3, barcode = Some ''A1''\<rparr>],
          clock = 9\<rparr>"]
  by (simp add: stored_def)

text \<open>
  Claim C10. Deleting by id leaves in the store exactly the items with another id, in
  their order and as they were; no item with the id stays, however many carried it.
\<close>

theorem deleteItem_keeps_the_others:
  "stored (api_deleteItem d w) = filter (\<lambda>i. item_id i \<noteq> d) (stored w)
   \<and> subseq (stored (api_deleteItem d w)) (stored w)
   \<and> d \<notin> item_id ` set (stored (api_deleteItem d w))"
  by (auto simp: stored_deleteItem)

section \<open>Ids\<close>








section \<open>Filtering\<close>

lemma str_includes_iff_sublist: "str_includes s q \<longleftrightarrow> sublist q s"
  by (induction s) (simp_all add: sublist_Cons_right)

lemma barcode_part:
  "q \<noteq> [] \<or> P \<Longrightarrow>
   (P \<or> (case bo of None \<Rightarrow> False | Some b \<Rightarrow> b \<noteq> [] \<and> sublist q b))
     \<longleftrightarrow> (P \<or> (\<exists>b. bo = Some b \<and> sublist q b))"
  by (cases bo) auto

text \<open>
  Claim C2. With a lower-casing that keeps the empty text empty (as the built-in does),
  the filter returns exactly the items that match the query in the specification's
  sense, in their original order; the result is a subsequence of the list, and the empty
  query gives the whole list back. So the filtered view of any state is a subsequence of
  its loaded list.
\<close>

theorem filterInventory_spec:
  assumes "toLowerCase [] = []"
  shows "filterInventory toLowerCase xs q = filter (matches_query toLowerCase q) xs
       \<and> subseq (filterInventory toLowerCase xs q) xs
       \<and> filterInventory toLowerCase xs [] = xs
       \<and> subseq (filteredItems toLowerCase st) (items st)"
proof -
  have eq: "\<And>q' (i::item). (str_includes (toLowerCase (name i)) (toLowerCase q')
                \<or> (case barcode i of None \<Rightarrow> False | Some b \<Rightarrow> b \<noteq> [] \<and> str_includes b q'))
             = matches_query toLowerCase q' i"
  proof -
    fix q' and i :: item
    have "q' \<noteq> [] \<or> sublist (toLowerCase q') (toLowerCase (name i))"
      using assms by (cases q') auto
    then show "(str_includes (toLowerCase (name i)) (toLowerCase q')
                \<or> (case barcode i of None \<Rightarrow> False | Some b \<Rightarrow> b \<noteq> [] \<and> str_includes b q'))
             = matches_query toLowerCase q' i"
      unfolding matches_query_def str_includes_iff_sublist by (rule barcode_part)
  qed
  have 1: "filterInventory toLowerCase xs q = filter (matches_query toLowerCase q) xs"
    by (simp add: filterInventory_def eq)
  have 2: "subseq (filterInventory toLowerCase xs q) xs"
    by (simp add: filterInventory_def)
  have "\<And>i. matches_query toLowerCase [] i"
    by (simp add: matches_query_def assms)
  then have 3: "filterInventory toLowerCase xs [] = xs"
    by (simp add: filterInventory_def eq)
  have 4: "subseq (filteredItems toLowerCase st) (items st)"
    by (simp add: filteredItems_def filterInventory_def)
  from 1 2 3 4 show ?thesis by blast
qed

theorem filterInventory_witness:
  "filterInventory ascii_lower
     [\<lparr>item_id = 1, name = ''Bolt'', quantity = 3, barcode = Some ''A1''\<rparr>,
      \<lparr>item_id = 2, name = ''nail'', quantity = 1, barcode = None\<rparr>,
      \<lparr>item_id = 3, name = ''tape'', quantity = 2, barcode = Some ''xbOy''\<rparr>] ''bO''
   = [\<lparr>item_id = 1, name = ''Bolt'', quantity = 3, barcode = Some ''A1''\<rparr>,
      \<lparr>item_id = 3, name = ''tape'', quantity = 2, barcode = Some ''xbOy''\<rparr>]
   \<and> filterInventory ascii_lower
     [\<lparr>item_id = 1, name = ''Bolt'', quantity = 3, barcode = Some ''A1''\<rparr>,
      \<lparr>item_id = 2, name = ''nail'', quantity = 1, barcode = None\<rparr>] []
   = [\<lparr>item_id = 1, name = ''Bolt'', quantity = 3, barcode = Some ''A1''\<rparr>,
      \<lparr>item_id = 2, name = ''nail'', quantity = 1, barcode = None\<rparr>]"
  using filterInventory_spec [where toLowerCase = ascii_lower and q = "[]" and xs =
      "[\<lparr>item_id = 1, name = ''Bolt'', quantity = 3, barcode = Some ''A1''\<rparr>,
      \<lparr>item_id = 2, name = ''nail'', quantity = 1, barcode = None\<rparr>]"]
  by (simp add: filterInventory_def ascii_lower_def lower_char_def)

section \<open>Submitting the form\<close>

lemmas handler_defs =
  loadInventory_def handleSubmit_def deleteItem_def handleBarcodeDetected_def
  initScanner_def onEscanear_def onCerrar_def decodeCallback_def wedgeKeyDown_def
  onAgregar_def onEditar_def onCancelar_def rendered_def boot_def timer_def resume.simps
  api_getItems_def api_addItem_def api_updateItem_def api_deleteItem_def stored_def Let_def

text \<open>
  Claim C3. Whatever the form holds, with the whole quantity that the number input
  delivers: unless the name is non-empty and the quantity is a positive integer, the
  submit changes nothing. No create or update is started, no notification is set, and
  the store and the dialog are as they were.
\<close>

theorem handleSubmit_invalid_does_nothing:
  fixes q :: int
  shows "\<not> (nm \<noteq> [] \<and> 0 < q) \<Longrightarrow> handleSubmit nm (of_int q) bc st = st"
  by (auto simp: handleSubmit_def)

theorem handleSubmit_invalid_witness:
  "handleSubmit [] 3 ''A1'' (onAgregar (timer (boot None 2000)))
     = onAgregar (timer (boot None 2000))
   \<and> handleSubmit ''bolt'' 0 ''A1'' (onAgregar (timer (boot None 2000)))
     = onAgregar (timer (boot None 2000))
   \<and> handleSubmit ''bolt'' (- 2) ''A1'' (onAgregar (timer (boot None 2000)))
     = onAgregar (timer (boot None 2000))
   \<and> isDialogOpen (onAgregar (timer (boot None 2000)))"
  using handleSubmit_invalid_does_nothing
      [of "[]" 3 "''A1''" "onAgregar (timer (boot None 2000))"]
    handleSubmit_invalid_does_nothing
      [of "''bolt''" 0 "''A1''" "onAgregar (timer (boot None 2000))"]
    handleSubmit_invalid_does_nothing
      [of "''bolt''" "- 2" "''A1''" "onAgregar (timer (boot None 2000))"]
  by (simp add: onAgregar_def)

section \<open>Invariants of the page\<close>

lemma set_replace_ids:
  "i \<in> set (map (\<lambda>i. if item_id i = item_id it then it else i) xs) \<Longrightarrow>
   item_id i \<in> item_id ` set xs"
  by (induction xs) (auto split: if_splits)

lemma stored_cong: "slot a = slot b \<Longrightarrow> stored a = stored b"
  by (simp add: stored_def)

lemma stored_fields [simp]:
  "stored (st\<lparr>snackbar := sn\<rparr>) = stored st"
  "stored (st\<lparr>isDialogOpen := b\<rparr>) = stored st"
  "stored (st\<lparr>pending := ts\<rparr>) = stored st"
  "stored (st\<lparr>items := xs\<rparr>) = stored st"
  "stored (st\<lparr>loading := b\<rparr>) = stored st"
  "stored (loadInventory st) = stored st"
  by (rule stored_cong; simp add: loadInventory_def)+

lemma stored_resume:
  "stored (resume (Adding nm qty bc) st) =
     stored st @ [\<lparr>item_id = of_nat (clock st), name = nm, quantity = qty, barcode = bc\<rparr>]"
  "stored (resume (Updating it) st) =
     map (\<lambda>i. if item_id i = item_id it then it else i) (stored st)"
  "stored (resume (Deleting d) st) = filter (\<lambda>i. item_id i \<noteq> d) (stored st)"
  "stored (resume Loading st) = stored st"
  by (simp_all add: stored_addItem stored_updateItem stored_deleteItem)

lemma resume_fields [simp]:
  "clock (resume t st) = clock st"
  "decoding (resume t st) = decoding st"
  "error (resume t st) = error st"
  "editItem (resume t st) = editItem st"
  by (cases t; simp add: loadInventory_def api_addItem_def api_updateItem_def
        api_deleteItem_def Let_def)+

lemma items_resume:
  "items (resume Loading st) = stored st"
  "t \<noteq> Loading \<Longrightarrow> items (resume t st) = items st"
  by (cases t; simp add: loadInventory_def api_getItems_def api_addItem_def api_updateItem_def
        api_deleteItem_def api_getItems_def Let_def)+

lemma loading_resume:
  "loading (resume t st) \<longleftrightarrow> t \<noteq> Loading"
  by (cases t) (simp_all add: loadInventory_def)


declare resume.simps [simp del]

lemma app_ok_cong:
  "slot a = slot b \<Longrightarrow> clock a = clock b \<Longrightarrow> items a = items b \<Longrightarrow>
   decoding a = decoding b \<Longrightarrow> app_ok a = app_ok b"
  by (simp add: app_ok_def stored_def)

lemma app_ok_fields [simp]:
  "app_ok (st\<lparr>isDialogOpen := b\<rparr>) = app_ok st"
  "app_ok (st\<lparr>snackbar := sn\<rparr>) = app_ok st"
  "app_ok (st\<lparr>search := q\<rparr>) = app_ok st"
  "app_ok (st\<lparr>editItem := e\<rparr>) = app_ok st"
  "app_ok (st\<lparr>isScannerOpen := b\<rparr>) = app_ok st"
  "app_ok (st\<lparr>unhandled := n\<rparr>) = app_ok st"
  "app_ok (st\<lparr>pending := ts\<rparr>) = app_ok st"
  by (rule app_ok_cong; simp)+

lemma app_ok_resume:
  assumes "app_ok st"
  shows "app_ok (resume t st)"
proof -
  have "\<forall>i\<in>set (stored (resume t st)). item_id i \<noteq> 0"
  proof (cases t)
    case (Adding nm qty bc)
    with assms show ?thesis by (auto simp: stored_resume app_ok_def)
  next
    case (Updating it)
    show ?thesis
    proof
      fix i assume "i \<in> set (stored (resume t st))"
      then have "item_id i \<in> item_id ` set (stored st)"
        unfolding Updating stored_resume by (rule set_replace_ids)
      with assms show "item_id i \<noteq> 0" by (auto simp: app_ok_def)
    qed
  next
    case (Deleting d)
    with assms show ?thesis by (auto simp: stored_resume app_ok_def)
  next
    case Loading
    with assms show ?thesis by (auto simp: stored_resume app_ok_def)
  qed
  moreover have "\<forall>i\<in>set (items (resume t st)). item_id i \<noteq> 0"
    using assms by (cases "t = Loading") (auto simp: items_resume app_ok_def)
  ultimately show ?thesis
    using assms by (simp add: app_ok_def)
qed

lemma app_ok_timer: "app_ok st \<Longrightarrow> app_ok (timer st)"
  by (auto simp: timer_def app_ok_resume split: list.splits)

lemma app_ok_handleSubmit: "app_ok st \<Longrightarrow> app_ok (handleSubmit nm qty bc st)"
  by (simp add: handleSubmit_def split: option.splits)

lemma app_ok_handleBarcodeDetected:
  "app_ok st \<Longrightarrow> app_ok (handleBarcodeDetected xs code st)"
  by (simp add: handleBarcodeDetected_def split: option.splits)

lemma app_ok_initScanner:
  assumes "app_ok st" shows "app_ok (initScanner devs granted st)"
proof -
  have "app_ok (st\<lparr>decoding := decoding st @ [items st]\<rparr>)"
    using assms by (auto simp: app_ok_def stored_def)
  then show ?thesis
    using assms by (simp add: initScanner_def split: option.splits list.splits)
qed

lemma app_ok_boot: "app_ok st \<Longrightarrow> app_ok (boot (slot st) (clock st))"
  by (simp add: boot_def app_ok_def stored_def)

lemma app_ok_clock: "app_ok st \<Longrightarrow> 0 < t \<Longrightarrow> app_ok (st\<lparr>clock := t\<rparr>)"
  by (simp add: app_ok_def)

lemma app_ok_step:
  assumes "app_ok st" "step e st = Some st'"
  shows "app_ok st'"
  using assms
  by (cases e)
    (auto simp: app_ok_timer app_ok_boot app_ok_clock app_ok_handleSubmit
      app_ok_handleBarcodeDetected app_ok_initScanner deleteItem_def onAgregar_def
      onEditar_def onCancelar_def onEscanear_def onCerrar_def decodeCallback_def
      wedgeKeyDown_def
      split: if_splits option.splits)

lemma app_ok_run: "app_ok st \<Longrightarrow> run es st = Some st' \<Longrightarrow> app_ok st'"
proof (induction es arbitrary: st)
  case Nil
  then show ?case by simp
next
  case (Cons e es)
  then show ?case by (auto split: option.splits dest: app_ok_step)
qed

lemma app_ok_reachable: "reachable_by es t0 st \<Longrightarrow> app_ok st"
proof -
  assume r: "reachable_by es t0 st"
  then have "app_ok (boot None t0)"
    by (simp add: reachable_by_def boot_def app_ok_def stored_def)
  with r show ?thesis
    unfolding reachable_by_def by (blast intro: app_ok_run)
qed

lemma synced_cong:
  "slot a = slot b \<Longrightarrow> items a = items b \<Longrightarrow> loading a = loading b \<Longrightarrow> synced a = synced b"
  by (simp add: synced_def stored_def)

lemma synced_fields [simp]:
  "synced (st\<lparr>isDialogOpen := b\<rparr>) = synced st"
  "synced (st\<lparr>snackbar := sn\<rparr>) = synced st"
  "synced (st\<lparr>search := q\<rparr>) = synced st"
  "synced (st\<lparr>editItem := e\<rparr>) = synced st"
  "synced (st\<lparr>isScannerOpen := b\<rparr>) = synced st"
  "synced (st\<lparr>unhandled := n\<rparr>) = synced st"
  "synced (st\<lparr>decoding := ds\<rparr>) = synced st"
  "synced (st\<lparr>pending := ts\<rparr>) = synced st"
  "synced (st\<lparr>clock := c\<rparr>) = synced st"
  by (rule synced_cong; simp)+

lemma synced_resume: "synced (resume t st)"
  by (cases "t = Loading") (simp_all add: synced_def loading_resume items_resume stored_resume)

lemma synced_step:
  assumes "synced st" "step e st = Some st'"
  shows "synced st'"
  using assms
  by (cases e)
    (auto simp: timer_def synced_resume handleSubmit_def deleteItem_def
      handleBarcodeDetected_def initScanner_def onEscanear_def onCerrar_def
      decodeCallback_def wedgeKeyDown_def onAgregar_def onEditar_def onCancelar_def
      split: if_splits option.splits list.splits,
     simp_all add: synced_def boot_def)

lemma synced_run: "synced st \<Longrightarrow> run es st = Some st' \<Longrightarrow> synced st'"
proof (induction es arbitrary: st)
  case Nil
  then show ?case by simp
next
  case (Cons e es)
  then show ?case by (auto split: option.splits dest: synced_step)
qed

lemma items_are_stored:
  assumes "reachable_by es t0 st" "rendered st"
  shows "items st = stored st"
proof -
  have "synced (boot None t0)" by (simp add: synced_def boot_def)
  with assms(1) have "synced st" unfolding reachable_by_def by (blast intro: synced_run)
  with assms(2) show ?thesis by (simp add: synced_def rendered_def)
qed

subsection \<open>When all timers have fired\<close>












section \<open>A valid submit\<close>

lemma tape_reachable: "reachable_by tape_events 1000 tape_state"
  by (simp add: reachable_by_def tape_events_def tape_state_def tape_def handler_defs)








section \<open>Bar-code resolution\<close>

lemma find_first:
  "find P xs = Some x \<Longrightarrow> \<exists>pre post. xs = pre @ x # post \<and> P x \<and> (\<forall>j\<in>set pre. \<not> P j)"
proof (induction xs)
  case Nil
  then show ?case by simp
next
  case (Cons a xs)
  show ?case
  proof (cases "P a")
    case True
    with Cons.prems have "x = a" by simp
    with True have "a # xs = [] @ x # xs \<and> P x \<and> (\<forall>j\<in>set []. \<not> P j)" by simp
    then show ?thesis by blast
  next
    case False
    with Cons obtain pre post where "xs = pre @ x # post" "P x" "\<forall>j\<in>set pre. \<not> P j"
      by auto
    with False have "a # xs = (a # pre) @ x # post \<and> P x \<and> (\<forall>j\<in>set (a # pre). \<not> P j)"
      by simp
    then show ?thesis by blast
  qed
qed

lemma resolve_found:
  assumes "\<forall>i\<in>set xs. item_id i \<noteq> 0" "find (\<lambda>i. barcode i = Some code) xs = Some it"
  shows "first_with_barcode code xs it
       \<and> editItem (handleBarcodeDetected xs code st) = Some it
       \<and> dialog_mode (handleBarcodeDetected xs code st) = Editar"
proof -
  from find_first [OF assms(2)]
  have 1: "first_with_barcode code xs it"
    by (simp add: first_with_barcode_def)
  then have "it \<in> set xs" by (auto simp: first_with_barcode_def)
  then have "item_id it \<noteq> 0" using assms(1) by simp
  then show ?thesis
    using 1 assms(2) by (simp add: handleBarcodeDetected_def dialog_mode_def)
qed

lemma resolve_not_found:
  assumes "find (\<lambda>i. barcode i = Some code) xs = None"
  shows "editItem (handleBarcodeDetected xs code st)
           = Some \<lparr>item_id = 0, name = [], quantity = 1, barcode = Some code\<rparr>
       \<and> dialog_mode (handleBarcodeDetected xs code st) = Agregar"
  using assms by (simp add: handleBarcodeDetected_def dialog_mode_def)

lemma resolve_opens: "isDialogOpen (handleBarcodeDetected xs code st)"
  by (simp add: handleBarcodeDetected_def split: option.splits)

text \<open>
  Resolution against a list without the id 0: the first item with the code becomes the
  edit target and the dialog says \<open>Editar\<close>; with no such item the target is the new
  item with only the code filled in, and the dialog says \<open>Agregar\<close>.
\<close>

lemma resolve_cases:
  assumes "\<forall>i\<in>set xs. item_id i \<noteq> 0"
  shows "if \<exists>j\<in>set xs. barcode j = Some code
          then \<exists>it. first_with_barcode code xs it
                 \<and> editItem (handleBarcodeDetected xs code st) = Some it
                 \<and> dialog_mode (handleBarcodeDetected xs code st) = Editar
          else editItem (handleBarcodeDetected xs code st)
                 = Some \<lparr>item_id = 0, name = [], quantity = 1, barcode = Some code\<rparr>
             \<and> dialog_mode (handleBarcodeDetected xs code st) = Agregar"
proof (cases "find (\<lambda>i. barcode i = Some code) xs")
  case None
  then have "\<not> (\<exists>j\<in>set xs. barcode j = Some code)"
    by (simp add: find_None_iff)
  with resolve_not_found [OF None] show ?thesis by simp
next
  case (Some it)
  then have "\<exists>j\<in>set xs. barcode j = Some code"
    using find_None_iff [of "\<lambda>i. barcode i = Some code" xs] by auto
  with resolve_found [OF assms Some] show ?thesis by auto
qed

lemma items_nonzero: "app_ok st \<Longrightarrow> \<forall>i\<in>set (items st). item_id i \<noteq> 0"
  by (simp add: app_ok_def)

lemma session_nonzero:
  "app_ok st \<Longrightarrow> k < length (decoding st) \<Longrightarrow> \<forall>i\<in>set (decoding st ! k). item_id i \<noteq> 0"
  by (force simp: app_ok_def)

text \<open>
  The keyboard-wedge path resolves against the current list, which is the stored one, in
  every reachable state.
\<close>

lemma wedge_resolution:
  fixes code
  assumes "reachable_by es t0 st"
  defines "st' \<equiv> snd (wedgeKeyDown ''Enter'' code st)"
  shows "(rendered st \<longrightarrow> items st = stored st)
       \<and> isDialogOpen st'
       \<and> (if \<exists>j\<in>set (items st). barcode j = Some code
          then \<exists>it. first_with_barcode code (items st) it
                 \<and> editItem st' = Some it \<and> dialog_mode st' = Editar
          else editItem st' = Some \<lparr>item_id = 0, name = [], quantity = 1, barcode = Some code\<rparr>
             \<and> dialog_mode st' = Agregar)"
  unfolding st'_def
  using resolve_cases [OF items_nonzero [OF app_ok_reachable [OF assms(1)]], of code st]
    items_are_stored [OF assms(1)]
  by (simp add: wedgeKeyDown_def resolve_opens)

text \<open>
  The camera path resolves against the list of the render in which the scanner was
  opened, and closes the overlay.
\<close>

lemma camera_resolution:
  fixes code
  assumes "reachable_by es t0 st" "k < length (decoding st)"
  defines "xs \<equiv> decoding st ! k"
  defines "st' \<equiv> decodeCallback xs (Some code) st"
  shows "isDialogOpen st' \<and> \<not> isScannerOpen st'
       \<and> (if \<exists>j\<in>set xs. barcode j = Some code
          then \<exists>it. first_with_barcode code xs it
                 \<and> editItem st' = Some it \<and> dialog_mode st' = Editar
          else editItem st' = Some \<lparr>item_id = 0, name = [], quantity = 1, barcode = Some code\<rparr>
             \<and> dialog_mode st' = Agregar)"
proof -
  have nz: "\<forall>i\<in>set xs. item_id i \<noteq> 0"
    unfolding xs_def using assms(1,2) by (intro session_nonzero app_ok_reachable)
  have "dialog_mode st' = dialog_mode (handleBarcodeDetected xs code st)"
    "editItem st' = editItem (handleBarcodeDetected xs code st)"
    "isDialogOpen st'" "\<not> isScannerOpen st'"
    unfolding st'_def by (simp_all add: decodeCallback_def dialog_mode_def resolve_opens)
  with resolve_cases [OF nz, of code st] show ?thesis by simp
qed

text \<open>
  Claim C1 fails on the camera path. The scanner is opened on an empty inventory and
  reads \<open>99999\<close>; the item is created through the dialog; the session, which nothing has
  stopped, reads \<open>99999\<close> again. The current list holds an item with that code, yet the
  dialog opens for a new item: the callback still searches the empty list.
\<close>

theorem camera_resolves_against_old_list:
  "map_option (\<lambda>st. (items st, editItem st, dialog_mode st))
     (run [Timer, Click_escanear (Some [''cam0'']) True, Decoded 0 (Some ''99999''),
           Submit ''tape'' 7 ''99999'', Clock 2000, Timer, Clock 3000, Timer,
           Decoded 0 (Some ''99999'')]
        (boot None 1000))
   = Some ([\<lparr>item_id = 2000, name = ''tape'', quantity = 7, barcode = Some ''99999''\<rparr>],
           Some \<lparr>item_id = 0, name = [], quantity = 1, barcode = Some ''99999''\<rparr>,
           Agregar)"
  by (simp add: dialog_mode_def handler_defs)






section \<open>The camera\<close>

text \<open>No event but a reload of the page ends a decode session.\<close>

lemma sessions_never_end:
  assumes "step e st = Some st'" "e \<noteq> Reload"
  shows "length (decoding st) \<le> length (decoding st')"
  using assms
  by (cases e)
    (auto simp: timer_def handleSubmit_def deleteItem_def handleBarcodeDetected_def
      initScanner_def onEscanear_def onCerrar_def decodeCallback_def wedgeKeyDown_def
      onAgregar_def onEditar_def onCancelar_def
      split: if_splits option.splits list.splits)

text \<open>
  Claim C7 fails. After the first successful decode, and after the user closes the
  overlay, the overlay is closed and the decode session is still running.
\<close>

theorem camera_held_after_overlay_closes:
  "map_option (\<lambda>st. (isScannerOpen st, length (decoding st)))
     (run [Timer, Click_escanear (Some [''cam0'']) True, Decoded 0 (Some ''99999'')]
        (boot None 2000))
     = Some (False, 1)
   \<and> map_option (\<lambda>st. (isScannerOpen st, length (decoding st)))
     (run [Timer, Click_escanear (Some [''cam0'']) True, Click_cerrar] (boot None 2000))
     = Some (False, 1)"
  by (simp add: handler_defs)

text \<open>
  A start that fails before \<^verbatim>\<open>decodeFromVideoDevice\<close> is called (the device list cannot be
  had, or is empty) is caught: the notification is set, the overlay stays open, and
  nothing else changes.
\<close>

lemma scanner_no_device_handled:
  assumes "rendered st" "\<not> isScannerOpen st" "devs = None \<or> devs = Some []"
  shows "onEscanear devs granted st =
           st\<lparr>isScannerOpen := True,
              snackbar := \<lparr>opened = True, message = Error_al_iniciar_el_escaner,
                            severity = Sev_error\<rparr>\<rparr>"
  using assms by (auto simp: onEscanear_def initScanner_def rendered_def)

text \<open>
  Claim C8 fails when the camera is refused. A device is listed, the promise of
  \<^verbatim>\<open>decodeFromVideoDevice\<close> is rejected: the overlay is open, the notification state is as it
  was at start, and one rejection is left unhandled.
\<close>

theorem scanner_start_rejection_unhandled:
  "map_option (\<lambda>st. (isScannerOpen st, snackbar st, unhandled st))
     (run [Timer, Click_escanear (Some [''cam0'']) False] (boot None 2000))
     = Some (True, \<lparr>opened = False, message = Msg_empty, severity = Sev_success\<rparr>, 1)"
  by (simp add: handler_defs)

end
